theory Spec2Isabelle
  imports Main
begin

section \<open>The Prometheus rule-group handler of grizzly (pkg/mimir/rules-handler.go)\<close>

subsection \<open>Go values, maps and the store\<close>

text \<open>
  A Go \<open>interface{}\<close> value as the handler meets it: \<open>nil\<close>, a scalar, a slice, or a
  \<open>map[string]interface{}\<close>. A Go map is a reference value: two variables holding the
  same map see each other's writes. So a map value is an address into a store, and the
  contents of the map live in the store.
\<close>

type_synonym addr = nat

datatype val =
    VNil
  | VBool bool
  | VNum int
  | VString string
  | VSlice "val list"
  | VMap addr

type_synonym gomap = "string \<rightharpoonup> val"

type_synonym heap = "addr \<Rightarrow> gomap"

text \<open>\<open>m[k]\<close> on a \<open>map[string]interface{}\<close>: the zero value \<open>nil\<close> when the key is absent.\<close>

definition mapIndex :: "gomap \<Rightarrow> string \<Rightarrow> val" where
  "mapIndex m k = (case m k of None \<Rightarrow> VNil | Some v \<Rightarrow> v)"

text \<open>\<open>m[k] = v\<close>.\<close>

definition mapAssign :: "gomap \<Rightarrow> string \<Rightarrow> val \<Rightarrow> gomap" where
  "mapAssign m k v = m(k \<mapsto> v)"

text \<open>\<open>delete(m, k)\<close>.\<close>

definition mapDelete :: "gomap \<Rightarrow> string \<Rightarrow> gomap" where
  "mapDelete m k = m(k := None)"

subsection \<open>Errors\<close>

text \<open>
  A Go \<open>error\<close>: \<open>ErrNotFound\<close> is \<open>grizzly.ErrNotFound\<close>, \<open>Errorf\<close> carries the message
  that \<open>fmt.Errorf\<close> formats, \<open>RemoteError\<close> is whatever else the remote client reports.
\<close>

datatype error =
    ErrNotFound
  | Errorf string
  | RemoteError string

text \<open>
  The two runtime panics the handler can raise, a failed type assertion and an index out
  of range, are values too, so that every way of leaving a function is a branch of the
  model: a function that can panic yields \<open>Panic p\<close> or \<open>Return\<close> of what it returns.
\<close>

datatype panic =
    TypeAssertionFailed
  | IndexOutOfRange

datatype 'a outcome =
    Panic panic
  | Return 'a

subsection \<open>The remote wire shapes (package models, as the handler builds and reads them)\<close>

record PrometheusRuleGroup =
  Name :: string
  Rules :: "val list"

record PrometheusRuleGrouping =
  Namespace :: string
  Groups :: "PrometheusRuleGroup list"

subsection \<open>The remote client and the world\<close>

text \<open>
  Modelled from the spec: the remote client \<open>client.Mimir\<close> is consumed, not
  implemented, by this file. \<open>ListRules()\<close> answers with an error or with a mapping of
  namespace to an ordered sequence of rule groups; \<open>CreateRules(grouping)\<close> answers with
  success (\<open>None\<close>) or an error, after reading the rule maps it is handed from the store.
  The result of \<open>ListRules\<close> is a Go map, whose iteration order is unspecified: the
  association list holds its entries in the order in which this run's \<open>range\<close> visits
  them, and its keys are distinct.
\<close>

record Mimir =
  ListRules :: "error + (string \<times> PrometheusRuleGroup list) list"
  CreateRules :: "PrometheusRuleGrouping \<Rightarrow> heap \<Rightarrow> error option"

datatype call =
    CallListRules
  | CallCreateRules PrometheusRuleGrouping

text \<open>
  What a method of the handler can read and change: the store of Go maps, and the
  sequence of calls made to the remote client so far.
\<close>

record world =
  heap :: heap
  calls :: "call list"

subsection \<open>The host framework's resource\<close>

text \<open>
  Modelled from the spec: \<open>grizzly.Resource\<close>, the host framework's representation of a
  managed object, is not in this file's source. It has a kind, a name, a metadata
  mapping and a spec mapping.
\<close>

record Resource =
  apiVersion :: string
  kind :: string
  name :: string
  metadata :: "string \<rightharpoonup> string"
  spec :: gomap

text \<open>
  Modelled from the spec: \<open>NewResource(apiVersion, kind, name, spec)\<close>, the construction
  helper, gives a resource or an error; the spec names no case in which it fails.
\<close>

definition NewResource :: "string \<Rightarrow> string \<Rightarrow> string \<Rightarrow> gomap \<Rightarrow> error + Resource" where
  "NewResource av k n s =
     Inr \<lparr>apiVersion = av, kind = k, name = n, metadata = Map.empty, spec = s\<rparr>"

text \<open>Modelled from the spec: the accessor \<open>Name()\<close>.\<close>

definition Resource_Name :: "Resource \<Rightarrow> string" where
  "Resource_Name r = name r"

text \<open>
  Modelled from the spec: the accessor \<open>Spec()\<close> hands out the resource's own spec
  mapping. Go maps are references, so a rule mapping reached through it is the
  resource's own rule mapping, in the store.
\<close>

definition Spec :: "Resource \<Rightarrow> gomap" where
  "Spec r = spec r"

text \<open>Modelled from the spec: the accessor \<open>HasMetadata(key)\<close>.\<close>

definition HasMetadata :: "Resource \<Rightarrow> string \<Rightarrow> bool" where
  "HasMetadata r k = (metadata r k \<noteq> None)"

text \<open>
  Modelled from the spec: the accessor \<open>GetMetadata(key)\<close>. The spec does not say what it
  gives for an absent key; the model gives the empty string.
\<close>

definition GetMetadata :: "Resource \<Rightarrow> string \<Rightarrow> string" where
  "GetMetadata r k = (case metadata r k of None \<Rightarrow> [] | Some v \<Rightarrow> v)"

text \<open>Modelled from the spec: the accessor \<open>SetMetadata(key, value)\<close>.\<close>

definition SetMetadata :: "Resource \<Rightarrow> string \<Rightarrow> string \<Rightarrow> Resource" where
  "SetMetadata r k v = r\<lparr>metadata := (metadata r)(k \<mapsto> v)\<rparr>"

text \<open>
  Modelled from the spec: \<open>GetSpecString(key)\<close> gives \<open>(value, exists)\<close>, the value
  being a Go \<open>string\<close>. A value that is present and not a string cannot be handed out
  as one: the type assertion on it fails, which is a panic.
\<close>

definition GetSpecString :: "Resource \<Rightarrow> string \<Rightarrow> (string \<times> bool) outcome" where
  "GetSpecString r k =
     (case Spec r k of
        None \<Rightarrow> Return ([], False)
      | Some (VString s) \<Rightarrow> Return (s, True)
      | Some _ \<Rightarrow> Panic TypeAssertionFailed)"

subsection \<open>Standard library: strings.SplitN and strings.ReplaceAll\<close>

text \<open>\<open>strings.HasPrefix(s, prefix)\<close>.\<close>

definition HasPrefix :: "string \<Rightarrow> string \<Rightarrow> bool" where
  "HasPrefix s p = (take (length p) s = p)"

text \<open>\<open>strings.Index(s, sep)\<close>: the index of the first instance of \<open>sep\<close> in \<open>s\<close>, if any.\<close>

fun Index :: "string \<Rightarrow> string \<Rightarrow> nat option" where
  "Index [] sep = (if sep = [] then Some 0 else None)"
| "Index (c # cs) sep =
     (if HasPrefix (c # cs) sep then Some 0 else map_option Suc (Index cs sep))"

text \<open>
  \<open>strings.SplitN(s, sep, n)\<close> for a non-empty \<open>sep\<close> and \<open>n \<ge> 0\<close>: at most \<open>n\<close>
  substrings, the last one the unsplit remainder; \<open>n = 0\<close> gives no substring at all.
\<close>

fun SplitN :: "string \<Rightarrow> string \<Rightarrow> nat \<Rightarrow> string list" where
  "SplitN s sep 0 = []"
| "SplitN s sep (Suc 0) = [s]"
| "SplitN s sep (Suc (Suc n)) =
     (case Index s sep of
        None \<Rightarrow> [s]
      | Some m \<Rightarrow> take m s # SplitN (drop (m + length sep) s) sep (Suc n))"

text \<open>
  \<open>strings.ReplaceAll(s, old, new)\<close> for a non-empty \<open>old\<close>: every non-overlapping
  instance of \<open>old\<close>, from the left, is replaced by \<open>new\<close>.
\<close>

function ReplaceAll :: "string \<Rightarrow> string \<Rightarrow> string \<Rightarrow> string" where
  "ReplaceAll [] old new = []"
| "ReplaceAll (c # cs) old new =
     (if old \<noteq> [] \<and> HasPrefix (c # cs) old
      then new @ ReplaceAll (drop (length old) (c # cs)) old new
      else c # ReplaceAll cs old new)"
  by pat_completeness auto
termination
  by (relation "measure (\<lambda>(s, old, new). length s)") (auto simp: neq_Nil_conv)

subsection \<open>The handler\<close>

definition PrometheusRuleGroupKind :: string where
  "PrometheusRuleGroupKind = ''PrometheusRuleGroup''"

definition prometheusRuleGroupPattern :: "string \<Rightarrow> string \<Rightarrow> string" where
  "prometheusRuleGroupPattern a b = ''prometheus/rules-'' @ a @ ''.'' @ b"

text \<open>
  The handler holds the remote client. Its embedded \<open>BaseHandler\<close> answers \<open>Kind()\<close> with
  the kind it was built with (line 26) and \<open>APIVersion()\<close> with the provider's, a
  parameter here.
\<close>

record RuleHandler =
  APIVersion :: string
  clientTool :: Mimir

definition Kind :: "RuleHandler \<Rightarrow> string" where
  "Kind h = PrometheusRuleGroupKind"

text \<open>
  \<open>ResourceFilePath\<close> (lines 36-39). \<open>os.PathSeparator\<close> is a constant of the platform
  and the first parameter.
\<close>

definition ResourceFilePath ::
  "char \<Rightarrow> RuleHandler \<Rightarrow> Resource \<Rightarrow> string \<Rightarrow> world \<Rightarrow> string \<times> world" where
  "ResourceFilePath PathSeparator h resource filetype w =
     (let filename = ReplaceAll (Resource_Name resource) [PathSeparator] ''-''
      in (prometheusRuleGroupPattern filename filetype, w))"

text \<open>\<open>Validate\<close> (lines 42-48); \<open>None\<close> is the \<open>nil\<close> error.\<close>

definition Validate ::
  "RuleHandler \<Rightarrow> Resource \<Rightarrow> world \<Rightarrow> error option outcome \<times> world" where
  "Validate h resource w =
     (case GetSpecString resource ''uid'' of
        Panic p \<Rightarrow> (Panic p, w)
      | Return (uid, exist) \<Rightarrow>
          if exist \<and> uid \<noteq> Resource_Name resource
          then (Return (Some (Errorf (''uid '' @ [CHR 0x27] @ uid @ [CHR 0x27]
                                      @ '' and name '' @ [CHR 0x27] @ Resource_Name resource
                                      @ [CHR 0x27] @ '', don'' @ [CHR 0x27] @ ''t match''))), w)
          else (Return None, w))"

text \<open>\<open>GetUID\<close> (lines 51-56).\<close>

definition GetUID :: "RuleHandler \<Rightarrow> Resource \<Rightarrow> world \<Rightarrow> (error + string) \<times> world" where
  "GetUID h resource w =
     (if \<not> HasMetadata resource ''namespace''
      then (Inl (Errorf (Kind h @ '' '' @ Resource_Name resource
                         @ '' requires a namespace metadata entry'')), w)
      else (Inr (GetMetadata resource ''namespace'' @ ''.'' @ Resource_Name resource), w))"

text \<open>\<open>GetSpecUID\<close> (lines 58-60).\<close>

definition GetSpecUID :: "RuleHandler \<Rightarrow> Resource \<Rightarrow> world \<Rightarrow> (error + string) \<times> world" where
  "GetSpecUID h resource w =
     (Inl (Errorf ''GetSpecUID not implemented for prometheus rules''), w)"

text \<open>
  \<open>getRemoteRuleGroup\<close> (lines 89-117). The inner loop (lines 101-113) over the groups
  of one namespace: \<open>Some\<close> is the \<open>return\<close> of line 108 or 111, \<open>None\<close> is the loop
  running to its end.
\<close>

fun findGroup ::
  "RuleHandler \<Rightarrow> string \<Rightarrow> string \<Rightarrow> PrometheusRuleGroup list \<Rightarrow> (error + Resource) option" where
  "findGroup h namespace nm [] = None"
| "findGroup h namespace nm (grp # rest) =
     (if Name grp = nm
      then (case NewResource (APIVersion h) (Kind h) (Name grp)
                   [''rules'' \<mapsto> VSlice (Rules grp)] of
              Inl err \<Rightarrow> Some (Inl err)
            | Inr resource \<Rightarrow> Some (Inr (SetMetadata resource ''namespace'' namespace)))
      else findGroup h namespace nm rest)"

text \<open>The outer loop (lines 99-115) and the \<open>return\<close> of line 116.\<close>

fun scanGroupings ::
  "RuleHandler \<Rightarrow> string \<Rightarrow> string \<Rightarrow> (string \<times> PrometheusRuleGroup list) list
     \<Rightarrow> error + Resource" where
  "scanGroupings h namespace nm [] = Inl ErrNotFound"
| "scanGroupings h namespace nm ((key, grouping) # rest) =
     (if key = namespace
      then (case findGroup h namespace nm grouping of
              Some r \<Rightarrow> r
            | None \<Rightarrow> scanGroupings h namespace nm rest)
      else scanGroupings h namespace nm rest)"

text \<open>
  \<open>parts[0]\<close> and \<open>parts[1]\<close> are read before the remote client is called: an index out
  of range panics there.
\<close>

definition getRemoteRuleGroup ::
  "RuleHandler \<Rightarrow> string \<Rightarrow> world \<Rightarrow> (error + Resource) outcome \<times> world" where
  "getRemoteRuleGroup h uid w =
     (let parts = SplitN uid ''.'' 2 in
      if length parts < 2 then (Panic IndexOutOfRange, w)
      else
        let namespace = parts ! 0;
            nm = parts ! 1;
            w' = w\<lparr>calls := calls w @ [CallListRules]\<rparr>
        in (case ListRules (clientTool h) of
              Inl err \<Rightarrow> (Return (Inl err), w')
            | Inr groupings \<Rightarrow> (Return (scanGroupings h namespace nm groupings), w')))"

text \<open>\<open>getRemoteRuleGroupList\<close> (lines 120-134): the inner and the outer loop.\<close>

fun appendGroupIDs :: "string \<Rightarrow> PrometheusRuleGroup list \<Rightarrow> string list \<Rightarrow> string list" where
  "appendGroupIDs namespace [] IDs = IDs"
| "appendGroupIDs namespace (grp # rest) IDs =
     appendGroupIDs namespace rest (IDs @ [namespace @ ''.'' @ Name grp])"

fun collectIDs :: "(string \<times> PrometheusRuleGroup list) list \<Rightarrow> string list \<Rightarrow> string list" where
  "collectIDs [] IDs = IDs"
| "collectIDs ((namespace, grouping) # rest) IDs =
     collectIDs rest (appendGroupIDs namespace grouping IDs)"

definition getRemoteRuleGroupList ::
  "RuleHandler \<Rightarrow> world \<Rightarrow> (error + string list) \<times> world" where
  "getRemoteRuleGroupList h w =
     (let w' = w\<lparr>calls := calls w @ [CallListRules]\<rparr>
      in (case ListRules (clientTool h) of
            Inl err \<Rightarrow> (Inl err, w')
          | Inr groupings \<Rightarrow> (Inr (collectIDs groupings []), w')))"

text \<open>
  \<open>writeRuleGroup\<close> (lines 136-166). The body of its loop (lines 144-157) works on the
  rule map in place; \<open>translateRule\<close> is what those statements make of the map's contents.
\<close>

definition translateRule :: "gomap \<Rightarrow> gomap" where
  "translateRule rule =
     (let rule1 =
        (if mapIndex rule ''type'' = VString ''recording''
         then mapDelete (mapAssign rule ''record'' (mapIndex rule ''name'')) ''name''
         else if mapIndex rule ''type'' = VString ''alerting''
         then mapDelete (mapAssign rule ''alert'' (mapIndex rule ''name'')) ''name''
         else rule)
      in if mapIndex rule1 ''query'' \<noteq> VNil
         then mapDelete (mapAssign rule1 ''expr'' (mapIndex rule1 ''query'')) ''query''
         else rule1)"

text \<open>
  The loop (lines 142-159): \<open>ruleIf.(map[string]interface{})\<close> panics on anything but a
  map; the map it yields is the one the resource holds, so the statements of the body
  write to that map in the store, and the same map is appended to \<open>newGroup.Rules\<close>.
\<close>

fun translateRules :: "val list \<Rightarrow> heap \<Rightarrow> val list \<Rightarrow> val list outcome \<times> heap" where
  "translateRules [] hp newRules = (Return newRules, hp)"
| "translateRules (ruleIf # rest) hp newRules =
     (case ruleIf of
        VMap a \<Rightarrow> translateRules rest (hp(a := translateRule (hp a))) (newRules @ [VMap a])
      | _ \<Rightarrow> (Panic TypeAssertionFailed, hp))"

text \<open>
  \<open>resource.Spec()["rules"].([]interface{})\<close> panics unless the spec holds a slice under
  \<open>"rules"\<close>. What \<open>CreateRules\<close> answers is returned as it is.
\<close>

definition writeRuleGroup ::
  "RuleHandler \<Rightarrow> Resource \<Rightarrow> world \<Rightarrow> error option outcome \<times> world" where
  "writeRuleGroup h resource w =
     (case mapIndex (Spec resource) ''rules'' of
        VSlice rules \<Rightarrow>
          (case translateRules rules (heap w) [] of
             (Panic p, hp) \<Rightarrow> (Panic p, w\<lparr>heap := hp\<rparr>)
           | (Return newRules, hp) \<Rightarrow>
               let newGroup = \<lparr>Name = Resource_Name resource, Rules = newRules\<rparr>;
                   grouping = \<lparr>Namespace = GetMetadata resource ''namespace'',
                               Groups = [newGroup]\<rparr>
               in (Return (CreateRules (clientTool h) grouping hp),
                   w\<lparr>heap := hp, calls := calls w @ [CallCreateRules grouping]\<rparr>))
      | _ \<Rightarrow> (Panic TypeAssertionFailed, w))"

text \<open>The methods that only delegate (lines 63-86).\<close>

definition GetByUID ::
  "RuleHandler \<Rightarrow> string \<Rightarrow> world \<Rightarrow> (error + Resource) outcome \<times> world" where
  "GetByUID h uid w = getRemoteRuleGroup h uid w"

definition GetRemote ::
  "RuleHandler \<Rightarrow> Resource \<Rightarrow> world \<Rightarrow> (error + Resource) outcome \<times> world" where
  "GetRemote h resource w =
     (let uid = GetMetadata resource ''namespace'' @ ''.'' @ Resource_Name resource
      in getRemoteRuleGroup h uid w)"

definition ListRemote :: "RuleHandler \<Rightarrow> world \<Rightarrow> (error + string list) \<times> world" where
  "ListRemote h w = getRemoteRuleGroupList h w"

definition Add ::
  "RuleHandler \<Rightarrow> Resource \<Rightarrow> world \<Rightarrow> error option outcome \<times> world" where
  "Add h resource w = writeRuleGroup h resource w"

definition Update ::
  "RuleHandler \<Rightarrow> Resource \<Rightarrow> Resource \<Rightarrow> world \<Rightarrow> error option outcome \<times> world" where
  "Update h existing resource w = writeRuleGroup h resource w"

subsection \<open>Example inputs\<close>

text \<open>
  The inputs at which the theorems below are run: a store with one alerting rule at
  address 0 and one recording rule at address 1, a resource \<open>teamA.latency\<close> holding
  both, a resource whose \<open>uid\<close> is another string than its name and one whose \<open>uid\<close> is
  a number, three remote listings, a remote client that accepts every push, and one that is
  down.
\<close>

definition alertRule :: gomap where
  "alertRule = [''type'' \<mapsto> VString ''alerting'', ''name'' \<mapsto> VString ''HighLatency'',
                ''query'' \<mapsto> VString ''up == 0'']"

definition recordRule :: gomap where
  "recordRule = [''type'' \<mapsto> VString ''recording'', ''name'' \<mapsto> VString ''job:up:sum'',
                 ''query'' \<mapsto> VString ''sum(up)'']"

definition exHeap :: heap where
  "exHeap = ((\<lambda>a. Map.empty)(0 := alertRule))(1 := recordRule)"

definition exWorld :: world where
  "exWorld = \<lparr>heap = exHeap, calls = []\<rparr>"

definition exResource :: Resource where
  "exResource = \<lparr>apiVersion = ''grizzly.grafana.com/v1alpha1'',
                  kind = ''PrometheusRuleGroup'', name = ''latency'',
                  metadata = [''namespace'' \<mapsto> ''teamA''],
                  spec = [''rules'' \<mapsto> VSlice [VMap 0, VMap 1]]\<rparr>"

definition exOther :: Resource where
  "exOther = \<lparr>apiVersion = ''grizzly.grafana.com/v1alpha1'',
               kind = ''PrometheusRuleGroup'', name = ''a/b'',
               metadata = Map.empty,
               spec = [''uid'' \<mapsto> VString ''other'']\<rparr>"


definition exGroupings :: "(string \<times> PrometheusRuleGroup list) list" where
  "exGroupings = [(''teamA'', [\<lparr>Name = ''errors'', Rules = []\<rparr>,
                               \<lparr>Name = ''latency'', Rules = [VMap 0, VMap 1]\<rparr>])]"

definition exListing :: "(string \<times> PrometheusRuleGroup list) list" where
  "exListing = [(''teamA'', [\<lparr>Name = ''g1'', Rules = []\<rparr>]),
                (''teamB'', [\<lparr>Name = ''g2'', Rules = []\<rparr>, \<lparr>Name = ''g3'', Rules = []\<rparr>])]"

definition exDotted :: "(string \<times> PrometheusRuleGroup list) list" where
  "exDotted = [(''team.b'', [\<lparr>Name = ''g1'', Rules = []\<rparr>]),
               (''teamA'', [\<lparr>Name = ''slo.latency'', Rules = [VMap 0]\<rparr>])]"

definition exClient :: "(string \<times> PrometheusRuleGroup list) list \<Rightarrow> Mimir" where
  "exClient groupings = \<lparr>ListRules = Inr groupings, CreateRules = (\<lambda>grouping hp. None)\<rparr>"

definition downClient :: Mimir where
  "downClient = \<lparr>ListRules = Inl (RemoteError ''connection refused''),
                  CreateRules = (\<lambda>grouping hp. Some (RemoteError ''connection refused''))\<rparr>"

definition exHandler :: "Mimir \<Rightarrow> RuleHandler" where
  "exHandler c = \<lparr>APIVersion = ''grizzly.grafana.com/v1alpha1'', clientTool = c\<rparr>"

section \<open>Properties\<close>

subsection \<open>Strings\<close>

lemma HasPrefix_single: "HasPrefix (c # cs) [d] = (c = d)"
  by (simp add: HasPrefix_def)

lemma ReplaceAll_hyphen:
  "ReplaceAll s [c] ''-'' = map (\<lambda>x. if x = c then CHR ''-'' else x) s"
  by (induction s) (simp_all add: HasPrefix_single)

subsection \<open>The local methods\<close>

text \<open>
  Claim C8. For every name and filetype, \<open>ResourceFilePath\<close> returns
  \<open>prometheus/rules-<safe-name>.<filetype>\<close>, where the safe name is the name with every
  path separator replaced by a hyphen; it has no error result and leaves the world as it
  found it. With \<open>/\<close> as the separator, \<open>alerts\<close> and \<open>yaml\<close> give
  \<open>prometheus/rules-alerts.yaml\<close>, and \<open>a/b\<close> and \<open>yaml\<close> give
  \<open>prometheus/rules-a-b.yaml\<close>.
\<close>

theorem ResourceFilePath_spec:
  "ResourceFilePath sep h resource filetype w =
     (''prometheus/rules-''
        @ map (\<lambda>c. if c = sep then CHR ''-'' else c) (Resource_Name resource)
        @ ''.'' @ filetype, w)
   \<and> ResourceFilePath (CHR ''/'') h (resource\<lparr>name := ''alerts''\<rparr>) ''yaml'' w =
       (''prometheus/rules-alerts.yaml'', w)
   \<and> ResourceFilePath (CHR ''/'') h (resource\<lparr>name := ''a/b''\<rparr>) ''yaml'' w =
       (''prometheus/rules-a-b.yaml'', w)"
  by (simp add: ResourceFilePath_def ReplaceAll_hyphen prometheusRuleGroupPattern_def
      Resource_Name_def)

text \<open>
  Claim C6. A resource without a \<open>namespace\<close> metadata entry makes \<open>GetUID\<close> fail, with
  the error that names the kind and the resource and asks for the entry; a resource with
  \<open>namespace\<close> = \<open>N\<close> and name \<open>X\<close> makes it return exactly \<open>N.X\<close>.
\<close>

theorem GetUID_spec:
  "(metadata resource ''namespace'' = None \<longrightarrow>
      GetUID h resource w =
        (Inl (Errorf (''PrometheusRuleGroup '' @ name resource
                      @ '' requires a namespace metadata entry'')), w))
   \<and> (metadata resource ''namespace'' = Some N \<and> name resource = X \<longrightarrow>
      GetUID h resource w = (Inr (N @ ''.'' @ X), w))"
  by (simp add: GetUID_def HasMetadata_def GetMetadata_def Resource_Name_def Kind_def
      PrometheusRuleGroupKind_def)

theorem GetUID_spec_witness:
  "GetUID (exHandler downClient) exOther exWorld =
     (Inl (Errorf ''PrometheusRuleGroup a/b requires a namespace metadata entry''), exWorld)
   \<and> GetUID (exHandler downClient) exResource exWorld = (Inr ''teamA.latency'', exWorld)"
  using GetUID_spec [of exOther "exHandler downClient" exWorld "''teamA''" "''latency''"]
    GetUID_spec [of exResource "exHandler downClient" exWorld "''teamA''" "''latency''"]
  by (simp add: exOther_def exResource_def)




subsection \<open>The write path\<close>

text \<open>
  The loop over a sequence of rule maps never panics, hands the same maps on in the same
  order, and has rewritten each map once for every time it occurs in the sequence.
\<close>

lemma translateRules_maps:
  "translateRules (map VMap addrs) hp acc =
     (Return (acc @ map VMap addrs), \<lambda>a. (translateRule ^^ count_list addrs a) (hp a))"
proof (induction addrs arbitrary: hp acc)
  case Nil
  show ?case by simp
next
  case (Cons b addrs)
  show ?case
    by (simp add: Cons.IH funpow_swap1 fun_eq_iff)
qed

lemma writeRuleGroup_calls:
  "calls (snd (writeRuleGroup h resource w)) = calls w
   \<or> (\<exists>grouping. calls (snd (writeRuleGroup h resource w)) = calls w @ [CallCreateRules grouping])"
  by (auto simp: writeRuleGroup_def Let_def split: val.splits prod.splits outcome.splits)

lemma writeRuleGroup_maps:
  assumes "spec resource ''rules'' = Some (VSlice (map VMap addrs))"
  shows "writeRuleGroup h resource w =
     (let hp = (\<lambda>a. (translateRule ^^ count_list addrs a) (heap w a));
          grouping = \<lparr>Namespace = GetMetadata resource ''namespace'',
                      Groups = [\<lparr>Name = name resource, Rules = map VMap addrs\<rparr>]\<rparr>
      in (Return (CreateRules (clientTool h) grouping hp),
          w\<lparr>heap := hp, calls := calls w @ [CallCreateRules grouping]\<rparr>))"
  using assms
  by (simp add: writeRuleGroup_def mapIndex_def Spec_def translateRules_maps Let_def
      Resource_Name_def)

text \<open>
  Claim C3. \<open>Update(existing, resource)\<close> is \<open>Add(resource)\<close>: both are the one
  translate-and-push routine, the existing resource has no influence on the result, and
  the only remote call either of them makes is the client's create operation, called
  once with the one-group grouping when the resource's rules are a sequence of maps.
\<close>

theorem Update_is_Add:
  "Update h existing resource w = Add h resource w
   \<and> Add h resource w = writeRuleGroup h resource w
   \<and> Update h existing resource w = Update h other resource w
   \<and> (calls (snd (Update h existing resource w)) = calls w
      \<or> (\<exists>grouping. calls (snd (Update h existing resource w)) =
            calls w @ [CallCreateRules grouping]))
   \<and> (spec resource ''rules'' = Some (VSlice (map VMap addrs)) \<longrightarrow>
        calls (snd (Update h existing resource w)) =
          calls w @ [CallCreateRules
                       \<lparr>Namespace = GetMetadata resource ''namespace'',
                        Groups = [\<lparr>Name = name resource, Rules = map VMap addrs\<rparr>]\<rparr>]
        \<and> fst (Update h existing resource w) =
          Return (CreateRules (clientTool h)
                    \<lparr>Namespace = GetMetadata resource ''namespace'',
                     Groups = [\<lparr>Name = name resource, Rules = map VMap addrs\<rparr>]\<rparr>
                    (heap (snd (Update h existing resource w)))))"
  using writeRuleGroup_calls [of h resource w] writeRuleGroup_maps [of resource addrs h w]
  by (auto simp: Update_def Add_def Let_def)

theorem Update_is_Add_witness:
  "fst (Update (exHandler downClient) exOther exResource exWorld) =
     Return (Some (RemoteError ''connection refused''))
   \<and> fst (Add (exHandler downClient) exResource exWorld) =
     Return (Some (RemoteError ''connection refused''))
   \<and> calls (snd (Update (exHandler downClient) exOther exResource exWorld)) =
       [CallCreateRules \<lparr>Namespace = ''teamA'',
                         Groups = [\<lparr>Name = ''latency'', Rules = [VMap 0, VMap 1]\<rparr>]\<rparr>]"
proof -
  have rules: "spec exResource ''rules'' = Some (VSlice (map VMap [0, 1]))"
    by (simp add: exResource_def)
  have pushed: "Update (exHandler downClient) exOther exResource exWorld =
      Add (exHandler downClient) exResource exWorld
    \<and> calls (snd (Update (exHandler downClient) exOther exResource exWorld)) =
      calls exWorld @ [CallCreateRules
                        \<lparr>Namespace = GetMetadata exResource ''namespace'',
                         Groups = [\<lparr>Name = name exResource, Rules = map VMap [0, 1]\<rparr>]\<rparr>]
    \<and> fst (Update (exHandler downClient) exOther exResource exWorld) =
      Return (CreateRules (clientTool (exHandler downClient))
                \<lparr>Namespace = GetMetadata exResource ''namespace'',
                 Groups = [\<lparr>Name = name exResource, Rules = map VMap [0, 1]\<rparr>]\<rparr>
                (heap (snd (Update (exHandler downClient) exOther exResource exWorld))))"
    using Update_is_Add [of "exHandler downClient" exOther exResource exWorld exOther "[0, 1]"]
      rules
    by blast
  have "CreateRules (clientTool (exHandler downClient)) g hp =
      Some (RemoteError ''connection refused'')" for g hp
    by (simp add: exHandler_def downClient_def)
  moreover have "GetMetadata exResource ''namespace'' = ''teamA''"
    and "name exResource = ''latency''" and "calls exWorld = []"
    by (simp_all add: exResource_def exWorld_def GetMetadata_def)
  ultimately show ?thesis
    using pushed by auto
qed

subsection \<open>Splitting the composite identifier\<close>

lemma Index_dot_None: "(Index s ''.'' = None) = (CHR ''.'' \<notin> set s)"
  by (induction s) (auto simp: HasPrefix_single)

lemma Index_dot_first:
  "CHR ''.'' \<notin> set ns \<Longrightarrow> Index (ns @ CHR ''.'' # x) ''.'' = Some (length ns)"
  by (induction ns) (auto simp: HasPrefix_single)

lemma SplitN_dot:
  "CHR ''.'' \<notin> set ns \<Longrightarrow> SplitN (ns @ ''.'' @ x) ''.'' 2 = [ns, x]"
  by (simp add: numeral_2_eq_2 Index_dot_first)

lemma SplitN_no_dot:
  assumes "CHR ''.'' \<notin> set uid"
  shows "SplitN uid ''.'' 2 = [uid]"
proof -
  from assms have "Index uid ''.'' = None"
    by (simp add: Index_dot_None)
  then show ?thesis
    by (simp add: numeral_2_eq_2)
qed

lemma dot_decompose:
  assumes "CHR ''.'' \<in> set uid"
  shows "\<exists>ns x. uid = ns @ ''.'' @ x \<and> CHR ''.'' \<notin> set ns"
proof -
  from assms obtain ns x where "uid = ns @ CHR ''.'' # x" and "CHR ''.'' \<notin> set ns"
    by (auto dest: split_list_first)
  then show ?thesis by auto
qed

lemma getRemoteRuleGroup_dot:
  assumes "CHR ''.'' \<notin> set ns"
  shows "getRemoteRuleGroup h (ns @ ''.'' @ x) w =
     (case ListRules (clientTool h) of
        Inl err \<Rightarrow> Return (Inl err)
      | Inr groupings \<Rightarrow> Return (scanGroupings h ns x groupings),
      w\<lparr>calls := calls w @ [CallListRules]\<rparr>)"
  using SplitN_dot [OF assms, of x]
  by (simp add: getRemoteRuleGroup_def Let_def split: sum.splits)

lemma getRemoteRuleGroup_no_dot:
  assumes "CHR ''.'' \<notin> set uid"
  shows "getRemoteRuleGroup h uid w = (Panic IndexOutOfRange, w)"
  using SplitN_no_dot [OF assms]
  by (simp add: getRemoteRuleGroup_def)

text \<open>
  Claim C9. In the lookup behind \<open>GetByUID\<close> and \<open>GetRemote\<close>, \<open>parts[1]\<close> is in range
  exactly when the uid contains a \<open>.\<close>. A uid with a \<open>.\<close> splits at its first \<open>.\<close> into
  a namespace and a name, and the lookup goes on to list the remote rules and scan them.
  A uid without a \<open>.\<close> splits into itself alone, and the read of \<open>parts[1]\<close> is out of
  range: the lookup panics before it has called the remote client. \<open>GetRemote\<close> is the
  same lookup on a uid that it builds with a \<open>.\<close>, so there the read is in range.
\<close>

theorem uid_split_in_range:
  "(1 < length (SplitN uid ''.'' 2)) = (CHR ''.'' \<in> set uid)
   \<and> (CHR ''.'' \<in> set uid \<longrightarrow>
        (\<exists>namespace nm.
           SplitN uid ''.'' 2 = [namespace, nm]
         \<and> uid = namespace @ ''.'' @ nm
         \<and> CHR ''.'' \<notin> set namespace
         \<and> GetByUID h uid w =
             (case ListRules (clientTool h) of
                Inl err \<Rightarrow> Return (Inl err)
              | Inr groupings \<Rightarrow> Return (scanGroupings h namespace nm groupings),
              w\<lparr>calls := calls w @ [CallListRules]\<rparr>)))
   \<and> (CHR ''.'' \<notin> set uid \<longrightarrow>
        SplitN uid ''.'' 2 = [uid] \<and> GetByUID h uid w = (Panic IndexOutOfRange, w))
   \<and> GetRemote h resource w =
       GetByUID h (GetMetadata resource ''namespace'' @ ''.'' @ Resource_Name resource) w
   \<and> 1 < length (SplitN (GetMetadata resource ''namespace'' @ ''.''
                           @ Resource_Name resource) ''.'' 2)"
proof (intro conjI impI)
  show "(1 < length (SplitN uid ''.'' 2)) = (CHR ''.'' \<in> set uid)"
  proof (cases "CHR ''.'' \<in> set uid")
    case True
    then obtain ns x where "uid = ns @ ''.'' @ x" "CHR ''.'' \<notin> set ns"
      using dot_decompose by blast
    with True show ?thesis by (simp add: SplitN_dot del: append.simps)
  next
    case False
    then show ?thesis by (simp add: SplitN_no_dot)
  qed
next
  assume "CHR ''.'' \<in> set uid"
  then obtain ns x where d: "uid = ns @ ''.'' @ x" "CHR ''.'' \<notin> set ns"
    using dot_decompose by blast
  then show "\<exists>namespace nm.
           SplitN uid ''.'' 2 = [namespace, nm]
         \<and> uid = namespace @ ''.'' @ nm
         \<and> CHR ''.'' \<notin> set namespace
         \<and> GetByUID h uid w =
             (case ListRules (clientTool h) of
                Inl err \<Rightarrow> Return (Inl err)
              | Inr groupings \<Rightarrow> Return (scanGroupings h namespace nm groupings),
              w\<lparr>calls := calls w @ [CallListRules]\<rparr>)"
    using SplitN_dot [of ns x] getRemoteRuleGroup_dot [of ns h x w]
    unfolding GetByUID_def by blast
next
  assume n: "CHR ''.'' \<notin> set uid"
  then show "SplitN uid ''.'' 2 = [uid]" by (rule SplitN_no_dot)
  from n show "GetByUID h uid w = (Panic IndexOutOfRange, w)"
    by (simp add: GetByUID_def getRemoteRuleGroup_no_dot)
next
  show "GetRemote h resource w =
       GetByUID h (GetMetadata resource ''namespace'' @ ''.'' @ Resource_Name resource) w"
    by (simp add: GetRemote_def GetByUID_def)
next
  let ?uid = "GetMetadata resource ''namespace'' @ ''.'' @ Resource_Name resource"
  obtain ns x where d: "?uid = ns @ ''.'' @ x" "CHR ''.'' \<notin> set ns"
    using dot_decompose [of ?uid] by auto
  show "1 < length (SplitN ?uid ''.'' 2)"
    unfolding d(1) by (simp add: SplitN_dot [OF d(2)] del: append.simps)
qed

theorem uid_split_in_range_witness:
  "1 < length (SplitN ''teamA.latency'' ''.'' 2)
   \<and> SplitN ''teamA.latency'' ''.'' 2 = [''teamA'', ''latency'']
   \<and> fst (GetByUID (exHandler downClient) ''teamA.latency'' exWorld) =
       Return (Inl (RemoteError ''connection refused''))
   \<and> GetByUID (exHandler downClient) ''teamA'' exWorld = (Panic IndexOutOfRange, exWorld)"
proof -
  have split: "SplitN ''teamA.latency'' ''.'' 2 = [''teamA'', ''latency'']"
    by (simp add: numeral_2_eq_2 HasPrefix_def)
  have down: "ListRules (clientTool (exHandler downClient)) =
      Inl (RemoteError ''connection refused'')"
    by (simp add: exHandler_def downClient_def)
  have dot: "CHR ''.'' \<in> set ''teamA.latency''" and nodot: "CHR ''.'' \<notin> set ''teamA''"
    by simp_all
  from uid_split_in_range [of "''teamA.latency''" "exHandler downClient" exWorld exResource]
    dot split down
  have "1 < length (SplitN ''teamA.latency'' ''.'' 2)"
    and "fst (GetByUID (exHandler downClient) ''teamA.latency'' exWorld) =
       Return (Inl (RemoteError ''connection refused''))"
    by auto
  moreover from uid_split_in_range [of "''teamA''" "exHandler downClient" exWorld exResource]
    nodot
  have "GetByUID (exHandler downClient) ''teamA'' exWorld = (Panic IndexOutOfRange, exWorld)"
    by blast
  ultimately show ?thesis
    using split by simp
qed

subsection \<open>Looking a rule group up\<close>

lemma findGroup_find:
  "findGroup h ns nm grouping =
     (case find (\<lambda>grp. Name grp = nm) grouping of
        None \<Rightarrow> None
      | Some grp \<Rightarrow>
          Some (Inr \<lparr>apiVersion = APIVersion h, kind = ''PrometheusRuleGroup'',
                     name = Name grp, metadata = [''namespace'' \<mapsto> ns],
                     spec = [''rules'' \<mapsto> VSlice (Rules grp)]\<rparr>))"
  by (induction grouping)
    (simp_all add: NewResource_def SetMetadata_def Kind_def PrometheusRuleGroupKind_def)

lemma scanGroupings_absent:
  "ns \<notin> fst ` set groupings \<Longrightarrow> scanGroupings h ns nm groupings = Inl ErrNotFound"
  by (induction groupings) auto

lemma scanGroupings_map_of:
  "distinct (map fst groupings) \<Longrightarrow>
   scanGroupings h ns nm groupings =
     (case map_of groupings ns of
        None \<Rightarrow> Inl ErrNotFound
      | Some grouping \<Rightarrow>
          (case findGroup h ns nm grouping of None \<Rightarrow> Inl ErrNotFound | Some r \<Rightarrow> r))"
proof (induction groupings)
  case Nil
  show ?case by simp
next
  case (Cons entry groupings)
  obtain key grouping where entry: "entry = (key, grouping)"
    by (cases entry)
  show ?case
  proof (cases "key = ns")
    case True
    with Cons.prems entry have "ns \<notin> fst ` set groupings"
      by auto
    then have "scanGroupings h ns nm groupings = Inl ErrNotFound"
      by (rule scanGroupings_absent)
    with True entry show ?thesis
      by (simp split: option.splits)
  next
    case False
    with Cons entry show ?thesis
      by simp
  qed
qed

lemma scanGroupings_no_match:
  "(\<And>grouping grp. (ns, grouping) \<in> set groupings \<Longrightarrow> grp \<in> set grouping \<Longrightarrow> Name grp \<noteq> nm)
   \<Longrightarrow> scanGroupings h ns nm groupings = Inl ErrNotFound"
proof (induction groupings)
  case Nil
  show ?case by simp
next
  case (Cons entry groupings)
  obtain key grouping where entry: "entry = (key, grouping)"
    by (cases entry)
  have rest: "scanGroupings h ns nm groupings = Inl ErrNotFound"
    using Cons by auto
  show ?case
  proof (cases "key = ns")
    case True
    with Cons.prems entry have "\<forall>grp \<in> set grouping. Name grp \<noteq> nm"
      by auto
    then have "find (\<lambda>grp. Name grp = nm) grouping = None"
      by (simp add: find_None_iff)
    with True entry rest show ?thesis
      by (simp add: findGroup_find)
  next
    case False
    with entry rest show ?thesis by simp
  qed
qed

lemma scanGroupings_found:
  "scanGroupings h ns nm groupings = Inr r \<Longrightarrow>
   \<exists>grouping grp. (ns, grouping) \<in> set groupings \<and> grp \<in> set grouping \<and> Name grp = nm
     \<and> r = \<lparr>apiVersion = APIVersion h, kind = ''PrometheusRuleGroup'',
              name = nm, metadata = [''namespace'' \<mapsto> ns],
              spec = [''rules'' \<mapsto> VSlice (Rules grp)]\<rparr>"
proof (induction groupings)
  case Nil
  then show ?case by simp
next
  case (Cons entry groupings)
  obtain key grouping where entry: "entry = (key, grouping)"
    by (cases entry)
  show ?case
  proof (cases "key = ns \<and> find (\<lambda>grp. Name grp = nm) grouping \<noteq> None")
    case True
    then obtain grp where f: "find (\<lambda>grp. Name grp = nm) grouping = Some grp"
      by auto
    then have mem: "grp \<in> set grouping" and nm: "Name grp = nm"
      by (auto simp: find_Some_iff)
    from True entry f have "scanGroupings h ns nm (entry # groupings) =
        Inr \<lparr>apiVersion = APIVersion h, kind = ''PrometheusRuleGroup'',
             name = Name grp, metadata = [''namespace'' \<mapsto> ns],
             spec = [''rules'' \<mapsto> VSlice (Rules grp)]\<rparr>"
      by (simp add: findGroup_find)
    with Cons.prems nm have r: "r = \<lparr>apiVersion = APIVersion h, kind = ''PrometheusRuleGroup'',
             name = nm, metadata = [''namespace'' \<mapsto> ns],
             spec = [''rules'' \<mapsto> VSlice (Rules grp)]\<rparr>"
      by simp
    from True entry have "(ns, grouping) \<in> set (entry # groupings)"
      by simp
    with mem nm r show ?thesis
      by blast
  next
    case False
    with entry Cons.prems have "scanGroupings h ns nm groupings = Inr r"
      by (auto simp: findGroup_find split: if_splits)
    with Cons.IH show ?thesis by auto
  qed
qed

text \<open>
  Claim C2. For a uid \<open>namespace.name\<close>, split at its first \<open>.\<close>: when \<open>ListRules\<close>
  fails, \<open>GetByUID\<close> returns that error unchanged; when the remote grouping has the
  namespace and its groups include one of that name, \<open>GetByUID\<close> returns a resource of
  this kind, named as the group, with \<open>namespace\<close> as its only metadata and \<open>rules\<close>,
  holding the group's rule list as it came, as the only key of its spec; when no group
  of the namespace has the name, it fails with \<open>ErrNotFound\<close>.
\<close>

theorem GetByUID_spec:
  "CHR ''.'' \<notin> set namespace \<Longrightarrow>
   (ListRules (clientTool h) = Inl err \<longrightarrow>
      fst (GetByUID h (namespace @ ''.'' @ nm) w) = Return (Inl err))
   \<and> (ListRules (clientTool h) = Inr groupings \<and> distinct (map fst groupings)
      \<and> map_of groupings namespace = Some grouping
      \<and> find (\<lambda>grp. Name grp = nm) grouping = Some grp \<longrightarrow>
      fst (GetByUID h (namespace @ ''.'' @ nm) w) =
        Return (Inr \<lparr>apiVersion = APIVersion h, kind = ''PrometheusRuleGroup'',
                     name = Name grp, metadata = [''namespace'' \<mapsto> namespace],
                     spec = [''rules'' \<mapsto> VSlice (Rules grp)]\<rparr>)
      \<and> Name grp = nm)
   \<and> (ListRules (clientTool h) = Inr groupings
      \<and> (\<forall>grouping grp. (namespace, grouping) \<in> set groupings \<and> grp \<in> set grouping
            \<longrightarrow> Name grp \<noteq> nm) \<longrightarrow>
      fst (GetByUID h (namespace @ ''.'' @ nm) w) = Return (Inl ErrNotFound))"
proof (intro conjI impI)
  assume ns: "CHR ''.'' \<notin> set namespace"
  note lookup = getRemoteRuleGroup_dot [OF ns, of h nm w]
  {
    assume "ListRules (clientTool h) = Inl err"
    with lookup show "fst (GetByUID h (namespace @ ''.'' @ nm) w) = Return (Inl err)"
      by (simp add: GetByUID_def)
  next
    assume a: "ListRules (clientTool h) = Inr groupings \<and> distinct (map fst groupings)
      \<and> map_of groupings namespace = Some grouping
      \<and> find (\<lambda>grp. Name grp = nm) grouping = Some grp"
    then have "scanGroupings h namespace nm groupings =
        Inr \<lparr>apiVersion = APIVersion h, kind = ''PrometheusRuleGroup'',
             name = Name grp, metadata = [''namespace'' \<mapsto> namespace],
             spec = [''rules'' \<mapsto> VSlice (Rules grp)]\<rparr>"
      by (simp add: scanGroupings_map_of findGroup_find)
    with a lookup show "fst (GetByUID h (namespace @ ''.'' @ nm) w) =
        Return (Inr \<lparr>apiVersion = APIVersion h, kind = ''PrometheusRuleGroup'',
                     name = Name grp, metadata = [''namespace'' \<mapsto> namespace],
                     spec = [''rules'' \<mapsto> VSlice (Rules grp)]\<rparr>)"
      by (simp add: GetByUID_def)
    from a show "Name grp = nm"
      by (auto simp: find_Some_iff)
  next
    assume a: "ListRules (clientTool h) = Inr groupings
      \<and> (\<forall>grouping grp. (namespace, grouping) \<in> set groupings \<and> grp \<in> set grouping
            \<longrightarrow> Name grp \<noteq> nm)"
    then have "scanGroupings h namespace nm groupings = Inl ErrNotFound"
      by (intro scanGroupings_no_match) blast
    with a lookup show "fst (GetByUID h (namespace @ ''.'' @ nm) w) = Return (Inl ErrNotFound)"
      by (simp add: GetByUID_def)
  }
qed

theorem GetByUID_spec_witness:
  "fst (GetByUID (exHandler (exClient exGroupings)) ''teamA.latency'' exWorld) =
     Return (Inr \<lparr>apiVersion = ''grizzly.grafana.com/v1alpha1'',
                  kind = ''PrometheusRuleGroup'', name = ''latency'',
                  metadata = [''namespace'' \<mapsto> ''teamA''],
                  spec = [''rules'' \<mapsto> VSlice [VMap 0, VMap 1]]\<rparr>)
   \<and> fst (GetByUID (exHandler (exClient exGroupings)) ''teamA.missing'' exWorld) =
     Return (Inl ErrNotFound)
   \<and> fst (GetByUID (exHandler downClient) ''teamA.latency'' exWorld) =
     Return (Inl (RemoteError ''connection refused''))"
proof -
  have ns: "CHR ''.'' \<notin> set ''teamA''"
    by simp
  have listed: "ListRules (clientTool (exHandler (exClient exGroupings))) = Inr exGroupings"
    and down: "ListRules (clientTool (exHandler downClient)) =
      Inl (RemoteError ''connection refused'')"
    and av: "APIVersion (exHandler (exClient exGroupings)) = ''grizzly.grafana.com/v1alpha1''"
    by (simp_all add: exHandler_def exClient_def downClient_def)
  have keys: "distinct (map fst exGroupings)"
    and there: "map_of exGroupings ''teamA'' =
      Some [\<lparr>Name = ''errors'', Rules = []\<rparr>, \<lparr>Name = ''latency'', Rules = [VMap 0, VMap 1]\<rparr>]"
    by (simp_all add: exGroupings_def)
  have first: "find (\<lambda>grp. Name grp = ''latency'')
      [\<lparr>Name = ''errors'', Rules = []\<rparr>, \<lparr>Name = ''latency'', Rules = [VMap 0, VMap 1]\<rparr>] =
      Some \<lparr>Name = ''latency'', Rules = [VMap 0, VMap 1]\<rparr>"
    by simp
  have none: "\<forall>grouping grp. (''teamA'', grouping) \<in> set exGroupings \<and> grp \<in> set grouping
      \<longrightarrow> Name grp \<noteq> ''missing''"
    by (auto simp: exGroupings_def)
  have "fst (GetByUID (exHandler (exClient exGroupings)) (''teamA'' @ ''.'' @ ''latency'') exWorld) =
     Return (Inr \<lparr>apiVersion = APIVersion (exHandler (exClient exGroupings)),
                  kind = ''PrometheusRuleGroup'',
                  name = Name \<lparr>Name = ''latency'', Rules = [VMap 0, VMap 1]\<rparr>,
                  metadata = [''namespace'' \<mapsto> ''teamA''],
                  spec = [''rules'' \<mapsto> VSlice (Rules \<lparr>Name = ''latency'', Rules = [VMap 0, VMap 1]\<rparr>)]\<rparr>)"
    using GetByUID_spec [OF ns, of "exHandler (exClient exGroupings)" _ "''latency''" exWorld
        exGroupings _ "\<lparr>Name = ''latency'', Rules = [VMap 0, VMap 1]\<rparr>"]
      listed keys there first
    by blast
  moreover have "fst (GetByUID (exHandler (exClient exGroupings)) (''teamA'' @ ''.'' @ ''missing'')
      exWorld) = Return (Inl ErrNotFound)"
    using GetByUID_spec [OF ns, of "exHandler (exClient exGroupings)" _ "''missing''" exWorld
        exGroupings] listed none
    by blast
  moreover have "fst (GetByUID (exHandler downClient) (''teamA'' @ ''.'' @ ''latency'') exWorld) =
     Return (Inl (RemoteError ''connection refused''))"
    using GetByUID_spec [OF ns, of "exHandler downClient" "RemoteError ''connection refused''"
        "''latency''" exWorld] down
    by blast
  ultimately show ?thesis
    using av by simp
qed

text \<open>
  Claim C10. The composite identifier round-trips: for a namespace \<open>N\<close> without a \<open>.\<close>
  and any name \<open>X\<close>, dots or not, \<open>GetUID\<close> gives \<open>N.X\<close> and the lookup's split of \<open>N.X\<close>
  gives back exactly \<open>N\<close> and \<open>X\<close>, so that \<open>GetByUID\<close> finds the group \<open>X\<close> of
  namespace \<open>N\<close>. Whatever \<open>GetByUID\<close> finds is a group of a remote namespace that has
  no \<open>.\<close> in it: a namespace with a \<open>.\<close> is never matched, for any uid.
\<close>

theorem uid_roundtrip:
  "(CHR ''.'' \<notin> set N \<and> metadata resource ''namespace'' = Some N \<and> name resource = X \<longrightarrow>
      fst (GetUID h resource w) = Inr (N @ ''.'' @ X)
      \<and> SplitN (N @ ''.'' @ X) ''.'' 2 = [N, X])
   \<and> (CHR ''.'' \<notin> set N \<and> ListRules (clientTool h) = Inr groupings
      \<and> distinct (map fst groupings) \<and> map_of groupings N = Some grouping
      \<and> find (\<lambda>grp. Name grp = X) grouping = Some grp \<longrightarrow>
      fst (GetByUID h (N @ ''.'' @ X) w) =
        Return (Inr \<lparr>apiVersion = APIVersion h, kind = ''PrometheusRuleGroup'',
                     name = X, metadata = [''namespace'' \<mapsto> N],
                     spec = [''rules'' \<mapsto> VSlice (Rules grp)]\<rparr>))
   \<and> (ListRules (clientTool h) = Inr groupings
      \<and> fst (GetByUID h uid w) = Return (Inr r) \<longrightarrow>
      (\<exists>key grouping grp. (key, grouping) \<in> set groupings \<and> grp \<in> set grouping
         \<and> CHR ''.'' \<notin> set key \<and> uid = key @ ''.'' @ Name grp
         \<and> metadata r ''namespace'' = Some key \<and> name r = Name grp))
   \<and> (ListRules (clientTool h) = Inr groupings
      \<and> (\<forall>key grouping. (key, grouping) \<in> set groupings \<longrightarrow> CHR ''.'' \<in> set key) \<longrightarrow>
      (\<forall>found. fst (GetByUID h uid w) \<noteq> Return (Inr found)))"
proof -
  have roundtrip: "fst (GetUID h resource w) = Inr (N @ ''.'' @ X)
      \<and> SplitN (N @ ''.'' @ X) ''.'' 2 = [N, X]"
    if "CHR ''.'' \<notin> set N \<and> metadata resource ''namespace'' = Some N \<and> name resource = X"
    using that SplitN_dot [of N X]
    by (simp add: GetUID_def HasMetadata_def GetMetadata_def Resource_Name_def)
  have dotted_name: "fst (GetByUID h (N @ ''.'' @ X) w) =
        Return (Inr \<lparr>apiVersion = APIVersion h, kind = ''PrometheusRuleGroup'',
                     name = X, metadata = [''namespace'' \<mapsto> N],
                     spec = [''rules'' \<mapsto> VSlice (Rules grp)]\<rparr>)"
    if a: "CHR ''.'' \<notin> set N \<and> ListRules (clientTool h) = Inr groupings
      \<and> distinct (map fst groupings) \<and> map_of groupings N = Some grouping
      \<and> find (\<lambda>grp. Name grp = X) grouping = Some grp"
  proof -
    from a have "Name grp = X"
      by (auto simp: find_Some_iff)
    with a have "scanGroupings h N X groupings =
        Inr \<lparr>apiVersion = APIVersion h, kind = ''PrometheusRuleGroup'',
             name = X, metadata = [''namespace'' \<mapsto> N],
             spec = [''rules'' \<mapsto> VSlice (Rules grp)]\<rparr>"
      by (simp add: scanGroupings_map_of findGroup_find)
    with a getRemoteRuleGroup_dot [of N h X w] show ?thesis
      by (simp add: GetByUID_def)
  qed
  have sound: "\<exists>key grouping grp. (key, grouping) \<in> set groupings \<and> grp \<in> set grouping
         \<and> CHR ''.'' \<notin> set key \<and> uid = key @ ''.'' @ Name grp
         \<and> metadata r ''namespace'' = Some key \<and> name r = Name grp"
    if a: "ListRules (clientTool h) = Inr groupings \<and> fst (GetByUID h uid w) = Return (Inr r)"
    for r
  proof (cases "CHR ''.'' \<in> set uid")
    case True
    then obtain ns x where d: "uid = ns @ ''.'' @ x" "CHR ''.'' \<notin> set ns"
      using dot_decompose by blast
    with a getRemoteRuleGroup_dot [of ns h x w]
    have "scanGroupings h ns x groupings = Inr r"
      by (simp add: GetByUID_def)
    then obtain grouping grp where "(ns, grouping) \<in> set groupings" "grp \<in> set grouping"
      "Name grp = x"
      "r = \<lparr>apiVersion = APIVersion h, kind = ''PrometheusRuleGroup'',
              name = x, metadata = [''namespace'' \<mapsto> ns],
              spec = [''rules'' \<mapsto> VSlice (Rules grp)]\<rparr>"
      using scanGroupings_found by blast
    with d show ?thesis
      by (intro exI [of _ ns] exI [of _ grouping] exI [of _ grp]) simp
  next
    case False
    with a show ?thesis
      by (simp add: GetByUID_def getRemoteRuleGroup_no_dot)
  qed
  have never: "fst (GetByUID h uid w) \<noteq> Return (Inr found)"
    if a: "ListRules (clientTool h) = Inr groupings
      \<and> (\<forall>key grouping. (key, grouping) \<in> set groupings \<longrightarrow> CHR ''.'' \<in> set key)"
    for found
    using a sound [of found] by blast
  from roundtrip dotted_name sound never show ?thesis
    by blast
qed


theorem uid_roundtrip_witness:
  "fst (GetUID (exHandler (exClient exDotted)) (exResource\<lparr>name := ''slo.latency''\<rparr>) exWorld) =
     Inr ''teamA.slo.latency''
   \<and> SplitN ''teamA.slo.latency'' ''.'' 2 = [''teamA'', ''slo.latency'']
   \<and> fst (GetByUID (exHandler (exClient exDotted)) ''teamA.slo.latency'' exWorld) =
       Return (Inr \<lparr>apiVersion = ''grizzly.grafana.com/v1alpha1'',
                    kind = ''PrometheusRuleGroup'', name = ''slo.latency'',
                    metadata = [''namespace'' \<mapsto> ''teamA''],
                    spec = [''rules'' \<mapsto> VSlice [VMap 0]]\<rparr>)
   \<and> (\<exists>key grouping grp. (key, grouping) \<in> set exDotted \<and> grp \<in> set grouping
         \<and> CHR ''.'' \<notin> set key \<and> ''teamA.slo.latency'' = key @ ''.'' @ Name grp)
   \<and> (\<forall>found. fst (GetByUID (exHandler (exClient (take 1 exDotted))) ''team.b.g1'' exWorld)
         \<noteq> Return (Inr found))"
proof -
  let ?h = "exHandler (exClient exDotted)"
  let ?r = "exResource\<lparr>name := ''slo.latency''\<rparr>"
  let ?found = "\<lparr>apiVersion = APIVersion ?h, kind = ''PrometheusRuleGroup'',
      name = ''slo.latency'', metadata = [''namespace'' \<mapsto> ''teamA''],
      spec = [''rules'' \<mapsto> VSlice (Rules \<lparr>Name = ''slo.latency'', Rules = [VMap 0]\<rparr>)]\<rparr>"
  have ns: "CHR ''.'' \<notin> set ''teamA''"
    by simp
  have res: "metadata ?r ''namespace'' = Some ''teamA''" "name ?r = ''slo.latency''"
    by (simp_all add: exResource_def)
  have listed: "ListRules (clientTool ?h) = Inr exDotted"
    and av: "APIVersion ?h = ''grizzly.grafana.com/v1alpha1''"
    and listed1: "ListRules (clientTool (exHandler (exClient (take 1 exDotted)))) =
      Inr (take 1 exDotted)"
    by (simp_all add: exHandler_def exClient_def)
  have keys: "distinct (map fst exDotted)"
    and there: "map_of exDotted ''teamA'' = Some [\<lparr>Name = ''slo.latency'', Rules = [VMap 0]\<rparr>]"
    and first: "find (\<lambda>grp. Name grp = ''slo.latency'')
      [\<lparr>Name = ''slo.latency'', Rules = [VMap 0]\<rparr>] =
      Some \<lparr>Name = ''slo.latency'', Rules = [VMap 0]\<rparr>"
    and dotted: "\<forall>key grouping. (key, grouping) \<in> set (take 1 exDotted) \<longrightarrow> CHR ''.'' \<in> set key"
    by (simp_all add: exDotted_def)
  note t = uid_roundtrip [of "''teamA''" ?r "''slo.latency''" ?h exWorld exDotted
      "[\<lparr>Name = ''slo.latency'', Rules = [VMap 0]\<rparr>]"
      "\<lparr>Name = ''slo.latency'', Rules = [VMap 0]\<rparr>" "''teamA.slo.latency''" ?found]
  from t ns res have a: "fst (GetUID ?h ?r exWorld) = Inr (''teamA'' @ ''.'' @ ''slo.latency'')"
    and b: "SplitN (''teamA'' @ ''.'' @ ''slo.latency'') ''.'' 2 = [''teamA'', ''slo.latency'']"
    by blast+
  from t ns listed keys there first
  have c: "fst (GetByUID ?h (''teamA'' @ ''.'' @ ''slo.latency'') exWorld) = Return (Inr ?found)"
    by blast
  then have c': "fst (GetByUID ?h ''teamA.slo.latency'' exWorld) = Return (Inr ?found)"
    by simp
  from t listed c'
  have d: "\<exists>key grouping grp. (key, grouping) \<in> set exDotted \<and> grp \<in> set grouping
         \<and> CHR ''.'' \<notin> set key \<and> ''teamA.slo.latency'' = key @ ''.'' @ Name grp"
    by blast
  from uid_roundtrip [of "''teamA''" ?r "''slo.latency''"
      "exHandler (exClient (take 1 exDotted))" exWorld "take 1 exDotted"
      "[]" "\<lparr>Name = ''g1'', Rules = []\<rparr>" "''team.b.g1''" ?found] listed1 dotted
  have e: "\<forall>found. fst (GetByUID (exHandler (exClient (take 1 exDotted))) ''team.b.g1'' exWorld)
         \<noteq> Return (Inr found)"
    by blast
  from a b c' d e av show ?thesis
    by simp
qed

subsection \<open>Listing the remote rule groups\<close>

lemma appendGroupIDs_map:
  "appendGroupIDs ns grouping IDs = IDs @ map (\<lambda>grp. ns @ ''.'' @ Name grp) grouping"
  by (induction grouping arbitrary: IDs) simp_all

lemma collectIDs_concat:
  "collectIDs groupings IDs =
     IDs @ concat (map (\<lambda>(ns, grouping). map (\<lambda>grp. ns @ ''.'' @ Name grp) grouping) groupings)"
  by (induction groupings arbitrary: IDs) (auto simp: appendGroupIDs_map)

text \<open>
  Claim C5. When \<open>ListRules\<close> answers with a grouping, \<open>ListRemote\<close> returns, with no
  error, the composite ids \<open>namespace.group\<close> of every group of every namespace, in the
  order in which the grouping is visited; as a set, exactly those ids. When \<open>ListRules\<close>
  fails, \<open>ListRemote\<close> fails with the same error. For \<open>teamA\<close> with \<open>g1\<close> and \<open>teamB\<close>
  with \<open>g2\<close> and \<open>g3\<close> the ids are \<open>teamA.g1\<close>, \<open>teamB.g2\<close> and \<open>teamB.g3\<close>, whichever
  namespace is visited first.
\<close>

theorem ListRemote_spec:
  "(ListRules (clientTool h) = Inr groupings \<longrightarrow>
      (\<exists>ids. fst (ListRemote h w) = Inr ids
         \<and> ids = concat (map (\<lambda>(ns, grouping). map (\<lambda>grp. ns @ ''.'' @ Name grp) grouping)
                          groupings)
         \<and> set ids = {ns @ ''.'' @ Name grp | ns grouping grp.
                        (ns, grouping) \<in> set groupings \<and> grp \<in> set grouping}))
   \<and> (ListRules (clientTool h) = Inl err \<longrightarrow> fst (ListRemote h w) = Inl err)"
proof (intro conjI impI)
  assume listed: "ListRules (clientTool h) = Inr groupings"
  let ?ids = "concat (map (\<lambda>(ns, grouping). map (\<lambda>grp. ns @ ''.'' @ Name grp) grouping)
                          groupings)"
  from listed have "fst (ListRemote h w) = Inr ?ids"
    by (simp add: ListRemote_def getRemoteRuleGroupList_def collectIDs_concat)
  moreover have "set ?ids = {ns @ ''.'' @ Name grp | ns grouping grp.
                        (ns, grouping) \<in> set groupings \<and> grp \<in> set grouping}"
    by auto
  ultimately show "\<exists>ids. fst (ListRemote h w) = Inr ids
         \<and> ids = ?ids
         \<and> set ids = {ns @ ''.'' @ Name grp | ns grouping grp.
                        (ns, grouping) \<in> set groupings \<and> grp \<in> set grouping}"
    by blast
next
  assume "ListRules (clientTool h) = Inl err"
  then show "fst (ListRemote h w) = Inl err"
    by (simp add: ListRemote_def getRemoteRuleGroupList_def)
qed

theorem ListRemote_spec_witness:
  "(\<exists>ids. fst (ListRemote (exHandler (exClient exListing)) exWorld) = Inr ids
      \<and> set ids = {''teamA.g1'', ''teamB.g2'', ''teamB.g3''})
   \<and> (\<exists>ids. fst (ListRemote (exHandler (exClient (rev exListing))) exWorld) = Inr ids
      \<and> set ids = {''teamA.g1'', ''teamB.g2'', ''teamB.g3''})
   \<and> fst (ListRemote (exHandler downClient) exWorld) = Inl (RemoteError ''connection refused'')"
proof -
  have listed: "ListRules (clientTool (exHandler (exClient gs))) = Inr gs" for gs
    by (simp add: exHandler_def exClient_def)
  have down: "ListRules (clientTool (exHandler downClient)) =
      Inl (RemoteError ''connection refused'')"
    by (simp add: exHandler_def downClient_def)
  have ids: "concat (map (\<lambda>(ns, grouping). map (\<lambda>grp. ns @ ''.'' @ Name grp) grouping)
      exListing) = [''teamA.g1'', ''teamB.g2'', ''teamB.g3'']"
    and ids': "concat (map (\<lambda>(ns, grouping). map (\<lambda>grp. ns @ ''.'' @ Name grp) grouping)
      (rev exListing)) = [''teamB.g2'', ''teamB.g3'', ''teamA.g1'']"
    by (simp_all add: exListing_def)
  from ListRemote_spec [of "exHandler (exClient exListing)" exListing exWorld] listed ids
  have "\<exists>ids. fst (ListRemote (exHandler (exClient exListing)) exWorld) = Inr ids
      \<and> set ids = {''teamA.g1'', ''teamB.g2'', ''teamB.g3''}"
    by auto
  moreover
  from ListRemote_spec [of "exHandler (exClient (rev exListing))" "rev exListing" exWorld]
    listed ids'
  have "\<exists>ids. fst (ListRemote (exHandler (exClient (rev exListing))) exWorld) = Inr ids
      \<and> set ids = {''teamA.g1'', ''teamB.g2'', ''teamB.g3''}"
    by auto
  moreover
  from ListRemote_spec [of "exHandler downClient" _ exWorld "RemoteError ''connection refused''"]
    down
  have "fst (ListRemote (exHandler downClient) exWorld) = Inl (RemoteError ''connection refused'')"
    by blast
  ultimately show ?thesis
    by blast
qed

subsection \<open>Translating the rules\<close>

lemma translateRule_type:
  "(mapIndex rule ''type'' = VString t) = (rule ''type'' = Some (VString t))"
  by (simp add: mapIndex_def split: option.splits)

lemma translateRule_recording:
  assumes "rule ''type'' = Some (VString ''recording'')"
  shows "translateRule rule ''record'' = Some (mapIndex rule ''name'')"
    and "translateRule rule ''name'' = None"
    and "translateRule rule ''alert'' = rule ''alert''"
  using assms
  by (simp_all add: translateRule_def mapIndex_def mapAssign_def mapDelete_def Let_def)

lemma translateRule_alerting:
  assumes "rule ''type'' = Some (VString ''alerting'')"
  shows "translateRule rule ''alert'' = Some (mapIndex rule ''name'')"
    and "translateRule rule ''name'' = None"
    and "translateRule rule ''record'' = rule ''record''"
  using assms
  by (simp_all add: translateRule_def mapIndex_def mapAssign_def mapDelete_def Let_def)

lemma translateRule_other:
  assumes "rule ''type'' \<noteq> Some (VString ''recording'')"
    and "rule ''type'' \<noteq> Some (VString ''alerting'')"
  shows "translateRule rule ''name'' = rule ''name''"
    and "translateRule rule ''record'' = rule ''record''"
    and "translateRule rule ''alert'' = rule ''alert''"
  using assms
  by (simp_all add: translateRule_def translateRule_type mapAssign_def mapDelete_def Let_def)

lemma translateRule_query:
  assumes "rule ''query'' = Some v" and "v \<noteq> VNil"
  shows "translateRule rule ''expr'' = Some v"
    and "translateRule rule ''query'' = None"
  using assms
  by (simp_all add: translateRule_def mapIndex_def mapAssign_def mapDelete_def Let_def)

lemma translateRule_no_query:
  assumes "rule ''query'' = None \<or> rule ''query'' = Some VNil"
  shows "translateRule rule ''expr'' = rule ''expr''"
    and "translateRule rule ''query'' = rule ''query''"
  using assms
  by (auto simp: translateRule_def mapIndex_def mapAssign_def mapDelete_def Let_def)

lemma translateRule_frame:
  assumes "k \<notin> {''name'', ''record'', ''alert'', ''query'', ''expr''}"
  shows "translateRule rule k = rule k"
  using assms
  by (simp add: translateRule_def mapAssign_def mapDelete_def Let_def)

lemma translateRule_alertRule:
  "translateRule alertRule =
     [''type'' \<mapsto> VString ''alerting'', ''alert'' \<mapsto> VString ''HighLatency'',
      ''expr'' \<mapsto> VString ''up == 0'']"
  by (rule ext)
    (simp add: translateRule_def alertRule_def mapIndex_def mapAssign_def mapDelete_def Let_def)

lemma translateRules_frame:
  "VMap a \<notin> set rules \<Longrightarrow> snd (translateRules rules hp acc) a = hp a"
  by (induction rules arbitrary: hp acc) (auto split: val.splits)

lemma writeRuleGroup_frame:
  assumes "\<And>rules. spec resource ''rules'' = Some (VSlice rules) \<Longrightarrow> VMap a \<notin> set rules"
  shows "heap (snd (writeRuleGroup h resource w)) a = heap w a"
proof (cases "mapIndex (Spec resource) ''rules''")
  case (VSlice rules)
  then have "spec resource ''rules'' = Some (VSlice rules)"
    by (simp add: mapIndex_def Spec_def split: option.splits)
  then have "VMap a \<notin> set rules"
    by (rule assms)
  then have "snd (translateRules rules (heap w) []) a = heap w a"
    by (rule translateRules_frame)
  with VSlice show ?thesis
    by (auto simp: writeRuleGroup_def Let_def split: prod.splits outcome.splits)
qed (simp_all add: writeRuleGroup_def)

lemma writeRuleGroup_distinct:
  assumes "spec resource ''rules'' = Some (VSlice (map VMap addrs))"
    and "distinct addrs" and "a \<in> set addrs"
  shows "heap (snd (writeRuleGroup h resource w)) a = translateRule (heap w a)"
proof -
  from assms(2,3) have "count_list addrs a = 1"
    by (induction addrs) auto
  with writeRuleGroup_maps [OF assms(1), of h w] show ?thesis
    by (simp add: Let_def)
qed


text \<open>
  Claim C1. For a resource whose \<open>rules\<close> are a sequence of distinct rule maps, \<open>Add\<close>
  and \<open>Update\<close> push those maps, each holding the translation of what it held. The
  translation of a rule: with \<open>type\<close> \<open>recording\<close>, \<open>record\<close> gets what \<open>name\<close> held
  and \<open>name\<close> is removed; with \<open>type\<close> \<open>alerting\<close>, \<open>alert\<close> gets what \<open>name\<close> held and
  \<open>name\<close> is removed; with any other or no \<open>type\<close>, \<open>name\<close>, \<open>record\<close> and \<open>alert\<close> stay
  as they are. Whatever the type, a \<open>query\<close> that is not nil moves to \<open>expr\<close> and
  \<open>query\<close> is removed; an absent or nil \<open>query\<close> leaves both as they are. No other key
  changes. The alerting rule \<open>HighLatency\<close> with query \<open>up == 0\<close> becomes the rule with
  \<open>type\<close>, \<open>alert\<close> and \<open>expr\<close> only.
\<close>

theorem translation_spec:
  "(spec resource ''rules'' = Some (VSlice (map VMap addrs)) \<and> distinct addrs \<longrightarrow>
      fst (Add h resource w) =
        Return (CreateRules (clientTool h)
                  \<lparr>Namespace = GetMetadata resource ''namespace'',
                   Groups = [\<lparr>Name = name resource, Rules = map VMap addrs\<rparr>]\<rparr>
                  (heap (snd (Add h resource w))))
      \<and> (\<forall>a. a \<in> set addrs \<longrightarrow>
             heap (snd (Add h resource w)) a = translateRule (heap w a))
      \<and> Update h existing resource w = Add h resource w)
   \<and> (rule ''type'' = Some (VString ''recording'') \<longrightarrow>
        translateRule rule ''record'' = Some (mapIndex rule ''name'')
        \<and> translateRule rule ''name'' = None
        \<and> translateRule rule ''alert'' = rule ''alert'')
   \<and> (rule ''type'' = Some (VString ''alerting'') \<longrightarrow>
        translateRule rule ''alert'' = Some (mapIndex rule ''name'')
        \<and> translateRule rule ''name'' = None
        \<and> translateRule rule ''record'' = rule ''record'')
   \<and> (rule ''type'' \<noteq> Some (VString ''recording'')
      \<and> rule ''type'' \<noteq> Some (VString ''alerting'') \<longrightarrow>
        translateRule rule ''name'' = rule ''name''
        \<and> translateRule rule ''record'' = rule ''record''
        \<and> translateRule rule ''alert'' = rule ''alert'')
   \<and> (rule ''query'' = Some v \<and> v \<noteq> VNil \<longrightarrow>
        translateRule rule ''expr'' = Some v \<and> translateRule rule ''query'' = None)
   \<and> (rule ''query'' = None \<or> rule ''query'' = Some VNil \<longrightarrow>
        translateRule rule ''expr'' = rule ''expr''
        \<and> translateRule rule ''query'' = rule ''query'')
   \<and> (k \<notin> {''name'', ''record'', ''alert'', ''query'', ''expr''} \<longrightarrow>
        translateRule rule k = rule k)
   \<and> translateRule [''type'' \<mapsto> VString ''alerting'', ''name'' \<mapsto> VString ''HighLatency'',
                      ''query'' \<mapsto> VString ''up == 0''] =
       [''type'' \<mapsto> VString ''alerting'', ''alert'' \<mapsto> VString ''HighLatency'',
        ''expr'' \<mapsto> VString ''up == 0'']"
proof -
  have push: "fst (Add h resource w) =
        Return (CreateRules (clientTool h)
                  \<lparr>Namespace = GetMetadata resource ''namespace'',
                   Groups = [\<lparr>Name = name resource, Rules = map VMap addrs\<rparr>]\<rparr>
                  (heap (snd (Add h resource w))))
      \<and> (\<forall>a. a \<in> set addrs \<longrightarrow>
             heap (snd (Add h resource w)) a = translateRule (heap w a))
      \<and> Update h existing resource w = Add h resource w"
    if a: "spec resource ''rules'' = Some (VSlice (map VMap addrs)) \<and> distinct addrs"
  proof (intro conjI allI impI)
    from a writeRuleGroup_maps [of resource addrs h w]
    show "fst (Add h resource w) =
        Return (CreateRules (clientTool h)
                  \<lparr>Namespace = GetMetadata resource ''namespace'',
                   Groups = [\<lparr>Name = name resource, Rules = map VMap addrs\<rparr>]\<rparr>
                  (heap (snd (Add h resource w))))"
      by (simp add: Add_def Let_def)
    show "Update h existing resource w = Add h resource w"
      by (simp add: Update_def Add_def)
    fix b
    assume "b \<in> set addrs"
    with a show "heap (snd (Add h resource w)) b = translateRule (heap w b)"
      by (simp add: Add_def writeRuleGroup_distinct)
  qed
  have recording: "rule ''type'' = Some (VString ''recording'') \<longrightarrow>
        translateRule rule ''record'' = Some (mapIndex rule ''name'')
        \<and> translateRule rule ''name'' = None
        \<and> translateRule rule ''alert'' = rule ''alert''"
    by (simp add: translateRule_recording)
  have alerting: "rule ''type'' = Some (VString ''alerting'') \<longrightarrow>
        translateRule rule ''alert'' = Some (mapIndex rule ''name'')
        \<and> translateRule rule ''name'' = None
        \<and> translateRule rule ''record'' = rule ''record''"
    by (simp add: translateRule_alerting)
  have other: "rule ''type'' \<noteq> Some (VString ''recording'')
      \<and> rule ''type'' \<noteq> Some (VString ''alerting'') \<longrightarrow>
        translateRule rule ''name'' = rule ''name''
        \<and> translateRule rule ''record'' = rule ''record''
        \<and> translateRule rule ''alert'' = rule ''alert''"
    by (simp add: translateRule_other)
  have query: "rule ''query'' = Some v \<and> v \<noteq> VNil \<longrightarrow>
        translateRule rule ''expr'' = Some v \<and> translateRule rule ''query'' = None"
    by (simp add: translateRule_query)
  have no_query: "rule ''query'' = None \<or> rule ''query'' = Some VNil \<longrightarrow>
        translateRule rule ''expr'' = rule ''expr''
        \<and> translateRule rule ''query'' = rule ''query''"
    using translateRule_no_query [of rule] by blast
  have frame: "k \<notin> {''name'', ''record'', ''alert'', ''query'', ''expr''} \<longrightarrow>
        translateRule rule k = rule k"
    using translateRule_frame [of k rule] by blast
  have example: "translateRule [''type'' \<mapsto> VString ''alerting'',
      ''name'' \<mapsto> VString ''HighLatency'', ''query'' \<mapsto> VString ''up == 0''] =
       [''type'' \<mapsto> VString ''alerting'', ''alert'' \<mapsto> VString ''HighLatency'',
        ''expr'' \<mapsto> VString ''up == 0'']"
    using translateRule_alertRule by (simp add: alertRule_def)
  from push have pushed: "spec resource ''rules'' = Some (VSlice (map VMap addrs))
      \<and> distinct addrs \<longrightarrow>
      fst (Add h resource w) =
        Return (CreateRules (clientTool h)
                  \<lparr>Namespace = GetMetadata resource ''namespace'',
                   Groups = [\<lparr>Name = name resource, Rules = map VMap addrs\<rparr>]\<rparr>
                  (heap (snd (Add h resource w))))
      \<and> (\<forall>a. a \<in> set addrs \<longrightarrow>
             heap (snd (Add h resource w)) a = translateRule (heap w a))
      \<and> Update h existing resource w = Add h resource w"
    by (rule impI)
  show ?thesis
    by (intro conjI; fact)
qed


theorem translation_spec_witness:
  "fst (Add (exHandler (exClient [])) exResource exWorld) = Return None
   \<and> heap (snd (Add (exHandler (exClient [])) exResource exWorld)) 0 =
       [''type'' \<mapsto> VString ''alerting'', ''alert'' \<mapsto> VString ''HighLatency'',
        ''expr'' \<mapsto> VString ''up == 0'']
   \<and> heap (snd (Add (exHandler (exClient [])) exResource exWorld)) 1 = translateRule recordRule
   \<and> Update (exHandler (exClient [])) exOther exResource exWorld =
       Add (exHandler (exClient [])) exResource exWorld
   \<and> translateRule recordRule ''record'' = Some (VString ''job:up:sum'')
   \<and> translateRule recordRule ''name'' = None
   \<and> translateRule recordRule ''expr'' = Some (VString ''sum(up)'')
   \<and> translateRule recordRule ''query'' = None
   \<and> translateRule alertRule ''alert'' = Some (VString ''HighLatency'')
   \<and> translateRule alertRule ''name'' = None
   \<and> translateRule alertRule ''type'' = Some (VString ''alerting'')
   \<and> translateRule [''name'' \<mapsto> VString ''up''] ''name'' = Some (VString ''up'')
   \<and> translateRule [''name'' \<mapsto> VString ''up''] ''expr'' = None"
proof -
  let ?h = "exHandler (exClient [])"
  note run = translation_spec [where resource = exResource and addrs = "[0, 1]" and h = ?h
      and w = exWorld and existing = exOther]
  have rules: "spec exResource ''rules'' = Some (VSlice (map VMap [0, 1])) \<and> distinct [0, 1::nat]"
    by (simp add: exResource_def)
  have accepts: "CreateRules (clientTool ?h) g hp = None" for g hp
    by (simp add: exHandler_def exClient_def)
  have before: "heap exWorld 0 = alertRule" "heap exWorld 1 = recordRule"
    by (simp_all add: exWorld_def exHeap_def)
  from run [of alertRule "VString ''up == 0''" "''type''"] rules accepts before
  have pushed: "fst (Add ?h exResource exWorld) = Return None"
    and at0: "heap (snd (Add ?h exResource exWorld)) 0 = translateRule alertRule"
    and at1: "heap (snd (Add ?h exResource exWorld)) 1 = translateRule recordRule"
    and same: "Update ?h exOther exResource exWorld = Add ?h exResource exWorld"
    by simp_all
  from run [of alertRule "VString ''up == 0''" "''type''"]
  have alert: "translateRule alertRule ''alert'' = Some (VString ''HighLatency'')"
      "translateRule alertRule ''name'' = None"
      "translateRule alertRule ''type'' = Some (VString ''alerting'')"
    and example: "translateRule alertRule =
      [''type'' \<mapsto> VString ''alerting'', ''alert'' \<mapsto> VString ''HighLatency'',
       ''expr'' \<mapsto> VString ''up == 0'']"
    by (simp_all add: alertRule_def mapIndex_def)
  from run [of recordRule "VString ''sum(up)''" "''type''"]
  have recorded: "translateRule recordRule ''record'' = Some (VString ''job:up:sum'')"
      "translateRule recordRule ''name'' = None"
      "translateRule recordRule ''expr'' = Some (VString ''sum(up)'')"
      "translateRule recordRule ''query'' = None"
    by (simp_all add: recordRule_def mapIndex_def)
  from run [of "[''name'' \<mapsto> VString ''up'']" "VString ''up''" "''type''"]
  have plain: "translateRule [''name'' \<mapsto> VString ''up''] ''name'' = Some (VString ''up'')"
      "translateRule [''name'' \<mapsto> VString ''up''] ''expr'' = None"
    by simp_all
  from pushed at0 at1 same alert recorded plain example show ?thesis
    by simp
qed

subsection \<open>What the methods do to the store\<close>

lemma getRemoteRuleGroup_heap: "heap (snd (getRemoteRuleGroup h uid w)) = heap w"
  by (simp add: getRemoteRuleGroup_def Let_def split: sum.splits)

text \<open>
  Claim C4 says that no operation changes the resource it is handed, the translation
  working on a copy. It does not: the resource \<open>teamA.latency\<close> holds the rule map at
  address 0, whose \<open>name\<close> is \<open>HighLatency\<close> before \<open>Add\<close> and is gone after it.
\<close>

theorem Add_rewrites_rule_counterexample:
  "spec exResource ''rules'' = Some (VSlice [VMap 0, VMap 1])
   \<and> heap exWorld 0 ''name'' = Some (VString ''HighLatency'')
   \<and> heap (snd (Add (exHandler (exClient [])) exResource exWorld)) 0 ''name'' = None
   \<and> heap (snd (Add (exHandler (exClient [])) exResource exWorld)) 0 \<noteq> heap exWorld 0"
proof -
  have rules: "spec exResource ''rules'' = Some (VSlice (map VMap [0, 1]))"
    by (simp add: exResource_def)
  have before: "heap exWorld 0 = alertRule"
    by (simp add: exWorld_def exHeap_def)
  have "heap (snd (writeRuleGroup (exHandler (exClient [])) exResource exWorld)) 0 =
      translateRule (heap exWorld 0)"
    using rules by (rule writeRuleGroup_distinct) simp_all
  then have after: "heap (snd (Add (exHandler (exClient [])) exResource exWorld)) 0 =
      translateRule alertRule"
    by (simp add: Add_def before)
  have gone: "translateRule alertRule ''name'' = None"
    by (simp add: translateRule_alertRule)
  have held: "alertRule ''name'' = Some (VString ''HighLatency'')"
    by (simp add: alertRule_def)
  from gone held have "translateRule alertRule \<noteq> alertRule"
    by (metis option.distinct(1))
  with before after gone held show ?thesis
    by (simp add: exResource_def)
qed

text \<open>
  Claim C4, as the code has it. \<open>Add\<close> and \<open>Update\<close> rewrite each rule map of the
  resource's \<open>rules\<close> in place into its translation, once for every time the map occurs
  in the sequence, and push those same maps, not copies; every map that is not one of
  the resource's rules is left as it was. \<open>Validate\<close>, \<open>GetUID\<close>, \<open>ResourceFilePath\<close>,
  \<open>GetByUID\<close>, \<open>GetRemote\<close> and \<open>ListRemote\<close> change no map at all.
\<close>

theorem write_path_store:
  "(spec resource ''rules'' = Some (VSlice (map VMap addrs)) \<longrightarrow>
      heap (snd (Add h resource w)) =
        (\<lambda>b. (translateRule ^^ count_list addrs b) (heap w b))
      \<and> calls (snd (Add h resource w)) =
          calls w @ [CallCreateRules
                       \<lparr>Namespace = GetMetadata resource ''namespace'',
                        Groups = [\<lparr>Name = name resource, Rules = map VMap addrs\<rparr>]\<rparr>])
   \<and> (spec resource ''rules'' = Some (VSlice (map VMap addrs)) \<and> distinct addrs
      \<and> a \<in> set addrs \<longrightarrow>
      heap (snd (Add h resource w)) a = translateRule (heap w a))
   \<and> ((\<forall>rules. spec resource ''rules'' = Some (VSlice rules) \<longrightarrow> VMap a \<notin> set rules) \<longrightarrow>
      heap (snd (Add h resource w)) a = heap w a)
   \<and> Update h existing resource w = Add h resource w
   \<and> snd (Validate h resource w) = w
   \<and> snd (GetUID h resource w) = w
   \<and> snd (ResourceFilePath sep h resource filetype w) = w
   \<and> heap (snd (GetByUID h uid w)) = heap w
   \<and> heap (snd (GetRemote h resource w)) = heap w
   \<and> heap (snd (ListRemote h w)) = heap w"
proof -
  have rewritten: "spec resource ''rules'' = Some (VSlice (map VMap addrs)) \<longrightarrow>
      heap (snd (Add h resource w)) =
        (\<lambda>b. (translateRule ^^ count_list addrs b) (heap w b))
      \<and> calls (snd (Add h resource w)) =
          calls w @ [CallCreateRules
                       \<lparr>Namespace = GetMetadata resource ''namespace'',
                        Groups = [\<lparr>Name = name resource, Rules = map VMap addrs\<rparr>]\<rparr>]"
    using writeRuleGroup_maps [of resource addrs h w]
    by (simp add: Add_def Let_def)
  have once: "spec resource ''rules'' = Some (VSlice (map VMap addrs)) \<and> distinct addrs
      \<and> a \<in> set addrs \<longrightarrow>
      heap (snd (Add h resource w)) a = translateRule (heap w a)"
    by (simp add: Add_def writeRuleGroup_distinct)
  have others: "(\<forall>rules. spec resource ''rules'' = Some (VSlice rules) \<longrightarrow> VMap a \<notin> set rules)
      \<longrightarrow> heap (snd (Add h resource w)) a = heap w a"
    by (simp add: Add_def writeRuleGroup_frame)
  have same: "Update h existing resource w = Add h resource w"
    by (simp add: Update_def Add_def)
  have validate: "snd (Validate h resource w) = w"
    by (simp add: Validate_def split: outcome.splits prod.splits)
  have getuid: "snd (GetUID h resource w) = w"
    by (simp add: GetUID_def)
  have path: "snd (ResourceFilePath sep h resource filetype w) = w"
    by (simp add: ResourceFilePath_def)
  have byuid: "heap (snd (GetByUID h uid w)) = heap w"
    by (simp add: GetByUID_def getRemoteRuleGroup_heap)
  have remote: "heap (snd (GetRemote h resource w)) = heap w"
    by (simp add: GetRemote_def getRemoteRuleGroup_heap)
  have listing: "heap (snd (ListRemote h w)) = heap w"
    by (simp add: ListRemote_def getRemoteRuleGroupList_def Let_def split: sum.splits)
  show ?thesis
    by (intro conjI; fact)
qed

theorem write_path_store_witness:
  "heap (snd (Add (exHandler (exClient [])) exResource exWorld)) 0 = translateRule alertRule
   \<and> heap (snd (Add (exHandler (exClient [])) exResource exWorld)) 1 = translateRule recordRule
   \<and> heap (snd (Add (exHandler (exClient [])) exResource exWorld)) 2 = heap exWorld 2
   \<and> calls (snd (Add (exHandler (exClient [])) exResource exWorld)) =
       [CallCreateRules \<lparr>Namespace = ''teamA'',
                         Groups = [\<lparr>Name = ''latency'', Rules = [VMap 0, VMap 1]\<rparr>]\<rparr>]"
proof -
  let ?h = "exHandler (exClient [])"
  note run = write_path_store [where resource = exResource and addrs = "[0, 1]" and h = ?h
      and w = exWorld and existing = exOther and sep = "CHR ''/''" and filetype = "''yaml''"
      and uid = "''teamA.latency''"]
  have rules: "spec exResource ''rules'' = Some (VSlice (map VMap [0, 1]))"
    and only: "\<forall>rules. spec exResource ''rules'' = Some (VSlice rules) \<longrightarrow> VMap 2 \<notin> set rules"
    and apart: "distinct [0, 1::nat]"
    by (simp_all add: exResource_def)
  have before: "heap exWorld 0 = alertRule" "heap exWorld 1 = recordRule"
    by (simp_all add: exWorld_def exHeap_def)
  from run [of 0] rules apart before
  have "heap (snd (Add ?h exResource exWorld)) 0 = translateRule alertRule"
    by simp
  moreover from run [of 1] rules apart before
  have "heap (snd (Add ?h exResource exWorld)) 1 = translateRule recordRule"
    by simp
  moreover from run [of 2] only
  have "heap (snd (Add ?h exResource exWorld)) 2 = heap exWorld 2"
    by blast
  moreover from run [of 2] rules
  have "calls (snd (Add ?h exResource exWorld)) =
      calls exWorld @ [CallCreateRules
                        \<lparr>Namespace = GetMetadata exResource ''namespace'',
                         Groups = [\<lparr>Name = name exResource, Rules = map VMap [0, 1]\<rparr>]\<rparr>]"
    by blast
  then have "calls (snd (Add ?h exResource exWorld)) =
       [CallCreateRules \<lparr>Namespace = ''teamA'',
                         Groups = [\<lparr>Name = ''latency'', Rules = [VMap 0, VMap 1]\<rparr>]\<rparr>]"
    by (simp add: exWorld_def exResource_def GetMetadata_def)
  ultimately show ?thesis
    by blast
qed

end
